theory Spec2Isabelle
  imports Complex_Main
begin

section \<open>Campus pathfinder: bearings, turn classification and directions\<close>

text \<open>
  A shallow embedding of \<^verbatim>\<open>src/main.py\<close>. Python floats are read as real numbers
  (no rounding error, no NaN, no infinities, no signed zero); Python exceptions are values
  of the type \<open>error\<close>, carried on the left of a sum.
\<close>

subsection \<open>Python's numeric built-ins, over the reals\<close>

text \<open>\<^verbatim>\<open>math.radians\<close> and \<^verbatim>\<open>math.degrees\<close>.\<close>

definition radians :: "real \<Rightarrow> real" where
  "radians d = d * pi / 180"

definition degrees :: "real \<Rightarrow> real" where
  "degrees r = r * 180 / pi"

text \<open>
  \<^verbatim>\<open>math.atan2(y, x)\<close>: the angle of the point \<open>(x, y)\<close>, by quadrant; Python returns
  \<open>0\<close> at the origin.
\<close>

definition atan2 :: "real \<Rightarrow> real \<Rightarrow> real" where
  "atan2 y x =
     (if 0 < x then arctan (y / x)
      else if x < 0 then (if 0 \<le> y then arctan (y / x) + pi else arctan (y / x) - pi)
      else if 0 < y then pi / 2
      else if y < 0 then - (pi / 2)
      else 0)"

text \<open>Python's \<^verbatim>\<open>a % m\<close> on floats, for a divisor \<open>m > 0\<close>: the result has the divisor's sign.\<close>

definition py_mod :: "real \<Rightarrow> real \<Rightarrow> real" where
  "py_mod a m = a - m * of_int \<lfloor>a / m\<rfloor>"

text \<open>Python's one-argument \<^verbatim>\<open>round\<close>: to the nearest integer, a tie going to the even one.\<close>

definition py_round :: "real \<Rightarrow> int" where
  "py_round x =
     (let f = \<lfloor>x\<rfloor>; d = x - of_int f
      in if d < 1 / 2 then f
         else if 1 / 2 < d then f + 1
         else if even f then f else f + 1)"

text \<open>Python's \<^verbatim>\<open>round(x, 2)\<close>: the same rule at the second decimal.\<close>

definition py_round2 :: "real \<Rightarrow> real" where
  "py_round2 x = of_int (py_round (x * 100)) / 100"

subsection \<open>The helper functions\<close>

text \<open>\<^verbatim>\<open>calculate_bearing(lat1, lon1, lat2, lon2)\<close>, lines 26 to 33.\<close>

definition calculate_bearing :: "real \<Rightarrow> real \<Rightarrow> real \<Rightarrow> real \<Rightarrow> real" where
  "calculate_bearing lat1 lon1 lat2 lon2 =
     (let dLon = radians (lon2 - lon1);
          y = sin dLon * cos (radians lat2);
          x = cos (radians lat1) * sin (radians lat2)
              - sin (radians lat1) * cos (radians lat2) * cos dLon
      in py_mod (degrees (atan2 y x) + 360) 360)"

text \<open>\<^verbatim>\<open>get_turn_instruction(angle)\<close>, lines 35 to 50, branch by branch.\<close>

definition get_turn_instruction :: "real \<Rightarrow> string" where
  "get_turn_instruction angle =
     (if - 20 \<le> angle \<and> angle \<le> 20 then ''Continue straight''
      else if angle > 20 \<and> angle \<le> 65 then ''Make a slight right''
      else if angle > 65 \<and> angle \<le> 135 then ''Turn right''
      else if angle < - 20 \<and> angle \<ge> - 65 then ''Make a slight left''
      else if angle < - 65 \<and> angle \<ge> - 135 then ''Turn left''
      else if angle > 135 then ''Make a sharp right''
      else ''Make a sharp left'')"

text \<open>
  The turn angle of lines 108 to 110: the difference of the bearings, then the two
  corrections one after the other, the second reading what the first left.
\<close>

definition turn_angle :: "real \<Rightarrow> real \<Rightarrow> real" where
  "turn_angle bearing1 bearing2 =
     (let t0 = bearing2 - bearing1;
          t1 = (if t0 > 180 then t0 - 360 else t0);
          t2 = (if t1 < - 180 then t1 + 360 else t1)
      in t2)"

subsection \<open>The graph, the request and the response\<close>

text \<open>
  The exceptions the handlers can raise or let through. \<^verbatim>\<open>HTTPException\<close>, with its status
  code and detail, is the one the application raises itself (line 63).
\<close>

datatype error =
  KeyError | TypeError | IndexError | ValueError | NetworkXNoPath | NodeNotFound
  | HTTPException nat string

type_synonym node = int

text \<open>
  An edge's attribute dictionary, as far as the handler reads it: \<^verbatim>\<open>'name'\<close>, which map
  data gives as one string or as a list of strings or not at all, and \<^verbatim>\<open>'length'\<close>.
\<close>

datatype name_value = Str string | StrList "string list"

record edge_attrs =
  name :: "name_value option"
  length_attr :: "real option"

text \<open>
  The graph \<^verbatim>\<open>G\<close>, an undirected multigraph: \<^verbatim>\<open>G.nodes[n]\<close> with its \<^verbatim>\<open>'y'\<close> and
  \<^verbatim>\<open>'x'\<close> (latitude, longitude), and \<^verbatim>\<open>G.get_edge_data(u, v)\<close>, which is \<^verbatim>\<open>None\<close>
  when no edge joins the two nodes and otherwise the dictionary from edge key to
  attributes of the parallel edges between them.
\<close>

record graph =
  nodes :: "node \<rightharpoonup> real \<times> real"
  get_edge_data :: "node \<Rightarrow> node \<Rightarrow> (nat \<rightharpoonup> edge_attrs) option"

record point =
  lat :: real
  lon :: real

record request =
  source :: point
  target :: point

record direction =
  instruction :: string
  distance :: int

record response =
  path :: "(real \<times> real) list"
  total_distance :: real
  directions :: "direction list"

text \<open>
  The three calls into osmnx and networkx are parameters of the model:
  \<^verbatim>\<open>ox.distance.nearest_nodes(G, X, Y)\<close>, \<^verbatim>\<open>nx.shortest_path(G, s, t, weight='length')\<close>
  and \<^verbatim>\<open>nx.shortest_path_length(G, s, t, weight='length')\<close>, each returning a value or
  raising.
\<close>

record library =
  nearest_nodes :: "graph \<Rightarrow> real \<Rightarrow> real \<Rightarrow> error + node"
  shortest_path :: "graph \<Rightarrow> node \<Rightarrow> node \<Rightarrow> error + node list"
  shortest_path_length :: "graph \<Rightarrow> node \<Rightarrow> node \<Rightarrow> error + real"

subsection \<open>The request handler\<close>

text \<open>\<^verbatim>\<open>G.nodes[n]\<close> followed by the reads of \<^verbatim>\<open>'y'\<close> and \<^verbatim>\<open>'x'\<close>.\<close>

definition node_at :: "graph \<Rightarrow> node \<Rightarrow> error + real \<times> real" where
  "node_at G n = (case nodes G n of None \<Rightarrow> Inl KeyError | Some c \<Rightarrow> Inr c)"

text \<open>The comprehension of line 76.\<close>

fun path_coords :: "graph \<Rightarrow> node list \<Rightarrow> error + (real \<times> real) list" where
  "path_coords G [] = Inr []"
| "path_coords G (n # ns) =
     (case node_at G n of
        Inl e \<Rightarrow> Inl e
      | Inr c \<Rightarrow> (case path_coords G ns of Inl e \<Rightarrow> Inl e | Inr cs \<Rightarrow> Inr (c # cs)))"

text \<open>
  Lines 85 to 88: for each pair of consecutive path nodes, the attributes stored under
  edge key \<open>0\<close>. Subscripting \<^verbatim>\<open>None\<close> is a TypeError, a missing key \<open>0\<close> a KeyError.
\<close>

fun route_edges :: "graph \<Rightarrow> node list \<Rightarrow> error + edge_attrs list" where
  "route_edges G (u # v # rest) =
     (case get_edge_data G u v of
        None \<Rightarrow> Inl TypeError
      | Some d \<Rightarrow>
          (case d 0 of
             None \<Rightarrow> Inl KeyError
           | Some edge_data \<Rightarrow>
               (case route_edges G (v # rest) of
                  Inl e \<Rightarrow> Inl e
                | Inr es \<Rightarrow> Inr (edge_data # es))))"
| "route_edges G [u] = Inr []"
| "route_edges G [] = Inr []"

text \<open>
  Lines 92 to 93 and 116 to 117: \<^verbatim>\<open>edge.get('name', 'Unnamed Path')\<close>, then the first
  element when the value is a list (an IndexError on an empty one).
\<close>

definition street_name :: "edge_attrs \<Rightarrow> error + string" where
  "street_name e =
     (case name e of
        None \<Rightarrow> Inr ''Unnamed Path''
      | Some (Str s) \<Rightarrow> Inr s
      | Some (StrList []) \<Rightarrow> Inl IndexError
      | Some (StrList (a # as)) \<Rightarrow> Inr a)"

text \<open>\<^verbatim>\<open>round(edge.get('length', 0))\<close>.\<close>

definition rounded_length :: "edge_attrs \<Rightarrow> int" where
  "rounded_length e = py_round (case length_attr e of None \<Rightarrow> 0 | Some l \<Rightarrow> l)"

text \<open>
  The body of the loop of lines 97 to 124 at index \<open>i\<close>: the instruction it appends,
  if any. The street name is resolved before the test for a straight turn, as in the source.
\<close>

definition turn_at :: "graph \<Rightarrow> node list \<Rightarrow> edge_attrs list \<Rightarrow> nat \<Rightarrow> error + direction option" where
  "turn_at G path_nodes edges i =
     (case node_at G (path_nodes ! (i - 1)) of
        Inl e \<Rightarrow> Inl e
      | Inr prev_node \<Rightarrow>
     (case node_at G (path_nodes ! i) of
        Inl e \<Rightarrow> Inl e
      | Inr curr_node \<Rightarrow>
     (case node_at G (path_nodes ! (i + 1)) of
        Inl e \<Rightarrow> Inl e
      | Inr next_node \<Rightarrow>
          (let bearing1 = calculate_bearing (fst prev_node) (snd prev_node)
                            (fst curr_node) (snd curr_node);
               bearing2 = calculate_bearing (fst curr_node) (snd curr_node)
                            (fst next_node) (snd next_node);
               turn_instruction = get_turn_instruction (turn_angle bearing1 bearing2);
               next_edge = edges ! i
           in case street_name next_edge of
                Inl e \<Rightarrow> Inl e
              | Inr next_street_name \<Rightarrow>
                  if turn_instruction \<noteq> ''Continue straight''
                  then Inr (Some \<lparr>instruction =
                                     turn_instruction @ '' onto <strong>'' @ next_street_name
                                       @ ''</strong>'',
                                   distance = rounded_length next_edge\<rparr>)
                  else Inr None))))"

text \<open>The loop itself, over the indices still to visit, appending to the directions so far.\<close>

fun turn_loop ::
  "graph \<Rightarrow> node list \<Rightarrow> edge_attrs list \<Rightarrow> nat list \<Rightarrow> direction list \<Rightarrow> error + direction list"
where
  "turn_loop G path_nodes edges [] ds = Inr ds"
| "turn_loop G path_nodes edges (i # rest) ds =
     (case turn_at G path_nodes edges i of
        Inl e \<Rightarrow> Inl e
      | Inr None \<Rightarrow> turn_loop G path_nodes edges rest ds
      | Inr (Some d) \<Rightarrow> turn_loop G path_nodes edges rest (ds @ [d]))"

text \<open>
  Lines 80 to 124, the directions of a node sequence: none for fewer than two nodes, else
  the initial instruction from the first edge followed by the turns at the interior nodes
  \<open>1, \<dots>, len - 2\<close>.
\<close>

definition directions_of :: "graph \<Rightarrow> node list \<Rightarrow> error + direction list" where
  "directions_of G path_nodes =
     (if length path_nodes < 2 then Inr []
      else
        (case route_edges G path_nodes of
           Inl e \<Rightarrow> Inl e
         | Inr edges \<Rightarrow>
             (let first_edge = edges ! 0
              in case street_name first_edge of
                   Inl e \<Rightarrow> Inl e
                 | Inr nm \<Rightarrow>
                     turn_loop G path_nodes edges [1 ..< length path_nodes - 1]
                       [\<lparr>instruction = ''Head toward <strong>'' @ nm @ ''</strong>'',
                         distance = rounded_length first_edge\<rparr>])))"


text \<open>
  \<^verbatim>\<open>get_path\<close>, lines 66 to 130, from the parsed request on. The handler has no
  \<^verbatim>\<open>try\<close>: whatever a library call raises leaves the handler unchanged.
\<close>

definition get_path :: "library \<Rightarrow> graph \<Rightarrow> request \<Rightarrow> error + response" where
  "get_path L G req =
     (case nearest_nodes L G (lon (source req)) (lat (source req)) of
        Inl e \<Rightarrow> Inl e
      | Inr src_node \<Rightarrow>
     (case nearest_nodes L G (lon (target req)) (lat (target req)) of
        Inl e \<Rightarrow> Inl e
      | Inr dst_node \<Rightarrow>
     (case shortest_path L G src_node dst_node of
        Inl e \<Rightarrow> Inl e
      | Inr path_nodes \<Rightarrow>
     (case path_coords G path_nodes of
        Inl e \<Rightarrow> Inl e
      | Inr coords \<Rightarrow>
     (case shortest_path_length L G src_node dst_node of
        Inl e \<Rightarrow> Inl e
      | Inr total_dist \<Rightarrow>
     (case directions_of G path_nodes of
        Inl e \<Rightarrow> Inl e
      | Inr ds \<Rightarrow>
          Inr \<lparr>path = coords, total_distance = py_round2 total_dist, directions = ds\<rparr>))))))"

subsection \<open>The formula of the specification\<close>

text \<open>
  The forward azimuth as the specification writes it, on angles in radians: latitudes
  \<open>p1\<close>, \<open>p2\<close> and longitudes \<open>l1\<close>, \<open>l2\<close>.
\<close>

definition forward_azimuth :: "real \<Rightarrow> real \<Rightarrow> real \<Rightarrow> real \<Rightarrow> real" where
  "forward_azimuth p1 l1 p2 l2 =
     atan2 (sin (l2 - l1) * cos p2) (cos p1 * sin p2 - sin p1 * cos p2 * cos (l2 - l1))"

subsection \<open>The table of the specification\<close>

text \<open>
  The rows of the specification's classification table, on the signed turn angle in
  degrees; no row applies outside \<open>[-180, 180]\<close>.
\<close>

datatype turn =
  Continue_straight | Slight_right | Turn_right | Sharp_right | Slight_left | Turn_left | Sharp_left

definition spec_turn :: "real \<Rightarrow> turn option" where
  "spec_turn a =
     (if - 20 \<le> a \<and> a \<le> 20 then Some Continue_straight
      else if 20 < a \<and> a \<le> 65 then Some Slight_right
      else if 65 < a \<and> a \<le> 135 then Some Turn_right
      else if 135 < a \<and> a \<le> 180 then Some Sharp_right
      else if - 65 \<le> a \<and> a < - 20 then Some Slight_left
      else if - 135 \<le> a \<and> a < - 65 then Some Turn_left
      else if - 180 \<le> a \<and> a < - 135 then Some Sharp_left
      else None)"

text \<open>The wording the code gives each row.\<close>

fun wording :: "turn \<Rightarrow> string" where
  "wording Continue_straight = ''Continue straight''"
| "wording Slight_right = ''Make a slight right''"
| "wording Turn_right = ''Turn right''"
| "wording Sharp_right = ''Make a sharp right''"
| "wording Slight_left = ''Make a slight left''"
| "wording Turn_left = ''Turn left''"
| "wording Sharp_left = ''Make a sharp left''"

text \<open>What the loop appends at index \<open>i\<close>: one instruction or none.\<close>

definition appended_at :: "graph \<Rightarrow> node list \<Rightarrow> edge_attrs list \<Rightarrow> nat \<Rightarrow> direction list" where
  "appended_at G path_nodes edges i =
     (case turn_at G path_nodes edges i of Inr (Some d) \<Rightarrow> [d] | _ \<Rightarrow> [])"

text \<open>
  A node sequence the handler can turn into directions: its nodes are nodes of the graph,
  and each pair of consecutive nodes is joined by an edge under key \<open>0\<close> whose name is not
  an empty list.
\<close>

definition well_formed_route :: "graph \<Rightarrow> node list \<Rightarrow> bool" where
  "well_formed_route G p \<longleftrightarrow>
     (\<forall>n\<in>set p. nodes G n \<noteq> None)
   \<and> (\<forall>i. i + 1 < length p \<longrightarrow>
          (\<exists>d e. get_edge_data G (p ! i) (p ! (i + 1)) = Some d \<and> d 0 = Some e
                 \<and> name e \<noteq> Some (StrList [])))"

subsection \<open>Walks, and what the path search promises\<close>

text \<open>A walk of the graph: a non-empty list of its nodes, each joined to the next by an edge.\<close>

fun is_walk :: "graph \<Rightarrow> node list \<Rightarrow> bool" where
  "is_walk G [] = False"
| "is_walk G [u] = (nodes G u \<noteq> None)"
| "is_walk G (u # v # rest) =
     (nodes G u \<noteq> None \<and> get_edge_data G u v \<noteq> None \<and> is_walk G (v # rest))"

text \<open>Two nodes are in the same connected component when a walk joins them.\<close>

definition reachable :: "graph \<Rightarrow> node \<Rightarrow> node \<Rightarrow> bool" where
  "reachable G s t \<longleftrightarrow> (\<exists>w. is_walk G w \<and> hd w = s \<and> last w = t)"

text \<open>
  The documented behaviour of \<^verbatim>\<open>nx.shortest_path\<close> and \<^verbatim>\<open>nx.shortest_path_length\<close> that
  the handler relies on, for a library \<open>L\<close> on a graph \<open>G\<close>: from a node to itself the path
  is that node alone and the length \<open>0\<close>; between two nodes that no walk joins the search
  raises \<^verbatim>\<open>NetworkXNoPath\<close>; a path returned is a walk from the source to the target.
  Nothing is said of which shortest path is chosen.
\<close>

definition networkx_contract :: "library \<Rightarrow> graph \<Rightarrow> bool" where
  "networkx_contract L G \<longleftrightarrow>
     (\<forall>a. nodes G a \<noteq> None \<longrightarrow>
        shortest_path L G a a = Inr [a] \<and> shortest_path_length L G a a = Inr 0)
   \<and> (\<forall>s t. nodes G s \<noteq> None \<and> nodes G t \<noteq> None \<and> \<not> reachable G s t \<longrightarrow>
        shortest_path L G s t = Inl NetworkXNoPath)
   \<and> (\<forall>s t w. shortest_path L G s t = Inr w \<longrightarrow> is_walk G w \<and> hd w = s \<and> last w = t)"

text \<open>
  The weight networkx gives a pair of joined nodes of a multigraph for \<^verbatim>\<open>weight='length'\<close>:
  the least \<^verbatim>\<open>length\<close> among the parallel edges, an edge without the attribute counting \<open>1\<close>.
\<close>

definition edge_weight :: "graph \<Rightarrow> node \<Rightarrow> node \<Rightarrow> real" where
  "edge_weight G u v =
     (case get_edge_data G u v of
        None \<Rightarrow> 0
      | Some d \<Rightarrow> Min ((\<lambda>e. case length_attr e of None \<Rightarrow> 1 | Some l \<Rightarrow> l) ` ran d))"

subsection \<open>Example graphs\<close>

text \<open>
  The end-to-end scenario of the specification: three nodes along two streets with a
  right angle at the second node, and a fourth node that no edge reaches. The first
  street carries two aliases.
\<close>

definition oak_st :: edge_attrs where
  "oak_st = \<lparr>name = Some (StrList [''Oak St'', ''Old Oak Rd'']), length_attr = Some (502 / 5)\<rparr>"

definition pine_st :: edge_attrs where
  "pine_st = \<lparr>name = Some (Str ''Pine St''), length_attr = Some (159 / 2)\<rparr>"

definition campus :: graph where
  "campus =
     \<lparr>nodes = [1 \<mapsto> (0, 0), 2 \<mapsto> (0, 1 / 1000), 3 \<mapsto> (1 / 1000, 1 / 1000), 4 \<mapsto> (1 / 500, 0)],
      get_edge_data =
        (\<lambda>u v. if (u = 1 \<and> v = 2) \<or> (u = 2 \<and> v = 1) then Some [0 \<mapsto> oak_st]
               else if (u = 2 \<and> v = 3) \<or> (u = 3 \<and> v = 2) then Some [0 \<mapsto> pine_st]
               else None)\<rparr>"

text \<open>A library for that graph: the node nearest to a point, and the routes along the two streets.\<close>

definition campus_route :: "node \<Rightarrow> node \<Rightarrow> node list" where
  "campus_route s t =
     (if s = 1 \<and> t = 2 then [1, 2] else if s = 2 \<and> t = 1 then [2, 1]
      else if s = 2 \<and> t = 3 then [2, 3] else if s = 3 \<and> t = 2 then [3, 2]
      else if s = 1 \<and> t = 3 then [1, 2, 3] else [3, 2, 1])"

definition campus_mark :: "node \<Rightarrow> real" where
  "campus_mark n = (if n = 1 then 0 else if n = 2 then 502 / 5 else 1799 / 10)"

definition campus_library :: library where
  "campus_library =
     \<lparr>nearest_nodes =
        (\<lambda>G x y. Inr (if 3 / 2000 \<le> y then 4 else if 1 / 2000 \<le> y then 3
                       else if 1 / 2000 \<le> x then 2 else 1)),
      shortest_path =
        (\<lambda>G s t. if s \<in> {1, 2, 3, 4} \<and> t \<in> {1, 2, 3, 4}
                 then (if s = t then Inr [s]
                       else if s = 4 \<or> t = 4 then Inl NetworkXNoPath
                       else Inr (campus_route s t))
                 else Inl NodeNotFound),
      shortest_path_length =
        (\<lambda>G s t. if s \<in> {1, 2, 3, 4} \<and> t \<in> {1, 2, 3, 4}
                 then (if s = t then Inr 0
                       else if s = 4 \<or> t = 4 then Inl NetworkXNoPath
                       else Inr \<bar>campus_mark t - campus_mark s\<bar>)
                 else Inl NodeNotFound)\<rparr>"


definition here_request :: request where
  "here_request = \<lparr>source = \<lparr>lat = 1 / 10000, lon = 6 / 10000\<rparr>,
                    target = \<lparr>lat = - 1 / 10000, lon = 9 / 10000\<rparr>\<rparr>"

definition walk_request :: request where
  "walk_request = \<lparr>source = \<lparr>lat = 1 / 10000, lon = - 1 / 5000\<rparr>,
                    target = \<lparr>lat = 11 / 10000, lon = 9 / 10000\<rparr>\<rparr>"

text \<open>Two nodes joined by two parallel edges, the longer one under key \<open>0\<close>.\<close>

definition main_rd :: edge_attrs where
  "main_rd = \<lparr>name = Some (Str ''Main Rd''), length_attr = Some 100\<rparr>"

definition shortcut :: edge_attrs where
  "shortcut = \<lparr>name = Some (Str ''Shortcut''), length_attr = Some 50\<rparr>"

definition parallel_graph :: graph where
  "parallel_graph =
     \<lparr>nodes = [1 \<mapsto> (0, 0), 2 \<mapsto> (0, 1 / 1000)],
      get_edge_data =
        (\<lambda>u v. if (u = 1 \<and> v = 2) \<or> (u = 2 \<and> v = 1) then Some [0 \<mapsto> main_rd, 1 \<mapsto> shortcut]
               else None)\<rparr>"

text \<open>
  A library for that graph: the path between the two nodes is the pair itself, and its
  length the weight networkx gives the pair. And a request from the first node to the second.
\<close>

definition parallel_library :: library where
  "parallel_library =
     \<lparr>nearest_nodes = (\<lambda>G x y. Inr (if 1 / 2000 \<le> x then 2 else 1)),
      shortest_path =
        (\<lambda>G s t. if s \<in> {1, 2} \<and> t \<in> {1, 2}
                 then (if s = t then Inr [s] else Inr [s, t])
                 else Inl NodeNotFound),
      shortest_path_length =
        (\<lambda>G s t. if s \<in> {1, 2} \<and> t \<in> {1, 2}
                 then (if s = t then Inr 0 else Inr (edge_weight G s t))
                 else Inl NodeNotFound)\<rparr>"

definition parallel_request :: request where
  "parallel_request = \<lparr>source = \<lparr>lat = 0, lon = 0\<rparr>, target = \<lparr>lat = 0, lon = 1 / 1000\<rparr>\<rparr>"

section \<open>Properties\<close>

subsection \<open>Arithmetic of the built-ins\<close>

lemma py_mod_range: "0 < m \<Longrightarrow> 0 \<le> py_mod a m \<and> py_mod a m < m"
proof -
  assume m: "0 < m"
  have "of_int \<lfloor>a / m\<rfloor> * m \<le> a" using m by (rule floor_divide_lower)
  moreover have "a < (of_int \<lfloor>a / m\<rfloor> + 1) * m" using m by (rule floor_divide_upper)
  ultimately show ?thesis by (simp add: py_mod_def algebra_simps)
qed

lemma py_mod_shift: "0 < m \<Longrightarrow> m \<le> a \<Longrightarrow> a < 2 * m \<Longrightarrow> py_mod a m = a - m"
proof -
  assume m: "0 < m" and a: "m \<le> a" "a < 2 * m"
  have "\<lfloor>a / m\<rfloor> = 1" using m a by (simp add: floor_eq_iff field_simps)
  then show ?thesis by (simp add: py_mod_def)
qed

lemma py_mod_id: "0 < m \<Longrightarrow> 0 \<le> a \<Longrightarrow> a < m \<Longrightarrow> py_mod a m = a"
proof -
  assume m: "0 < m" and a: "0 \<le> a" "a < m"
  have "\<lfloor>a / m\<rfloor> = 0" using m a by (simp add: floor_eq_iff field_simps)
  then show ?thesis by (simp add: py_mod_def)
qed

lemma py_mod_360:
  "- 180 < t \<Longrightarrow> t \<le> 180 \<Longrightarrow> py_mod (t + 360) 360 = (if t < 0 then t + 360 else t)"
proof (cases "t < 0")
  case True
  assume "- 180 < t" "t \<le> 180"
  with True have "py_mod (t + 360) 360 = t + 360" by (intro py_mod_id) simp_all
  with True show ?thesis by simp
next
  case False
  assume "- 180 < t" "t \<le> 180"
  with False have "py_mod (t + 360) 360 = t + 360 - 360" by (intro py_mod_shift) simp_all
  with False show ?thesis by simp
qed

text \<open>The rounding goes to a nearest integer, and leaves an integer alone.\<close>

lemma py_round_nearest: "\<bar>of_int (py_round x) - x\<bar> \<le> 1 / 2"
  unfolding py_round_def Let_def by (auto simp: abs_real_def) linarith+

lemma py_round_of_int: "py_round (of_int n) = n"
  by (simp add: py_round_def)

subsection \<open>The angle function\<close>

text \<open>\<open>atan2\<close> stays in \<open>(-\<pi>, \<pi>]\<close>.\<close>

lemma atan2_range: "- pi < atan2 y x \<and> atan2 y x \<le> pi"
proof -
  have b: "- (pi / 2) < arctan (y / x)" "arctan (y / x) < pi / 2"
    using arctan_bounded [of "y / x"] by simp_all
  have p: "0 < pi" by simp
  consider "0 < x" | "x < 0" "0 \<le> y" | "x < 0" "y < 0" | "x = 0" by linarith
  then show ?thesis
  proof cases
    case 1
    then have "atan2 y x = arctan (y / x)" by (simp add: atan2_def)
    with b p show ?thesis by linarith
  next
    case 2
    then have "y / x \<le> 0" by (simp add: divide_nonneg_neg)
    then have "arctan (y / x) \<le> 0" by simp
    moreover from 2 have "atan2 y x = arctan (y / x) + pi" by (simp add: atan2_def)
    ultimately show ?thesis using b p by linarith
  next
    case 3
    then have "0 < y / x" by (simp add: divide_neg_neg)
    then have "0 < arctan (y / x)" by simp
    moreover from 3 have "atan2 y x = arctan (y / x) - pi" by (simp add: atan2_def)
    ultimately show ?thesis using b p by linarith
  next
    case 4
    have "atan2 y 0 = pi / 2 \<or> atan2 y 0 = - (pi / 2) \<or> atan2 y 0 = 0"
      by (simp add: atan2_def)
    then show ?thesis unfolding 4 using p by (elim disjE; linarith)
  qed
qed

text \<open>
  Away from the origin, \<open>atan2 y x\<close> is the polar angle of \<open>(x, y)\<close>: the model of
  \<^verbatim>\<open>math.atan2\<close> is the function the formula of the bearing means.
\<close>

lemma atan2_polar:
  assumes "x \<noteq> 0 \<or> y \<noteq> 0"
  shows "sqrt (x\<^sup>2 + y\<^sup>2) * cos (atan2 y x) = x \<and> sqrt (x\<^sup>2 + y\<^sup>2) * sin (atan2 y x) = y"
proof (cases "x = 0")
  case True
  with assms have "y \<noteq> 0" by simp
  with True show ?thesis by (auto simp: atan2_def)
next
  case False
  define t where "t = y / x"
  define r where "r = sqrt (1 + t\<^sup>2)"
  have y: "y = t * x" using False by (simp add: t_def)
  have s: "sqrt (x\<^sup>2 + y\<^sup>2) = \<bar>x\<bar> * r"
  proof -
    have "x\<^sup>2 + y\<^sup>2 = x\<^sup>2 * (1 + t\<^sup>2)" by (simp add: y algebra_simps power2_eq_square)
    then show ?thesis by (simp add: real_sqrt_mult r_def)
  qed
  have pos: "0 < r" unfolding r_def by (simp add: add_pos_nonneg)
  have c: "r * cos (arctan t) = 1" using pos by (simp add: cos_arctan r_def)
  have sn: "r * sin (arctan t) = t" using pos by (simp add: sin_arctan r_def)
  show ?thesis
  proof (cases "0 < x")
    case True
    then have a: "atan2 y x = arctan t" by (simp add: atan2_def t_def)
    have "\<bar>x\<bar> * r * cos (arctan t) = x" using c True by (simp add: mult.assoc)
    moreover have "\<bar>x\<bar> * r * sin (arctan t) = y" using sn True by (simp add: mult.assoc y)
    ultimately show ?thesis unfolding s a by simp
  next
    case F: False
    with False have neg: "x < 0" by simp
    then have "atan2 y x = arctan t + pi \<or> atan2 y x = arctan t - pi"
      by (simp add: atan2_def t_def)
    then have cs: "cos (atan2 y x) = - cos (arctan t)" "sin (atan2 y x) = - sin (arctan t)"
      by (auto simp: cos_diff sin_diff cos_add sin_add)
    have "\<bar>x\<bar> * r * (- cos (arctan t)) = x" using c neg by (simp add: mult.assoc)
    moreover have "\<bar>x\<bar> * r * (- sin (arctan t)) = y" using sn neg by (simp add: mult.assoc y)
    ultimately show ?thesis unfolding s cs by simp
  qed
qed

lemma degrees_atan2_bounds: "- 180 < degrees (atan2 y x) \<and> degrees (atan2 y x) \<le> 180"
proof -
  have p: "0 < pi" by simp
  from atan2_range [of y x] p show ?thesis
    by (simp add: degrees_def field_simps)
qed

lemma radians_diff: "radians (a - b) = radians a - radians b"
  by (simp add: radians_def diff_divide_distrib left_diff_distrib)

subsection \<open>Bearings\<close>

lemma bearing_range:
  "0 \<le> calculate_bearing lat1 lon1 lat2 lon2 \<and> calculate_bearing lat1 lon1 lat2 lon2 < 360"
  unfolding calculate_bearing_def Let_def by (rule py_mod_range) simp

text \<open>
  C3: the bearing of \<^verbatim>\<open>calculate_bearing\<close> is the forward azimuth of the formula
  \<open>atan2 (sin \<Delta>lon \<sqdot> cos lat2, cos lat1 \<sqdot> sin lat2 - sin lat1 \<sqdot> cos lat2 \<sqdot> cos \<Delta>lon)\<close>,
  taken in degrees and moved into \<open>[0, 360)\<close> by adding 360 to a negative angle; the value
  returned always lies in \<open>[0, 360)\<close>. It holds for every two points, distinct or not.
\<close>

theorem calculate_bearing_forward_azimuth:
  "calculate_bearing lat1 lon1 lat2 lon2 =
     (let t = degrees (forward_azimuth (radians lat1) (radians lon1) (radians lat2) (radians lon2))
      in if t < 0 then t + 360 else t)
   \<and> 0 \<le> calculate_bearing lat1 lon1 lat2 lon2
   \<and> calculate_bearing lat1 lon1 lat2 lon2 < 360"
proof -
  let ?t = "degrees (forward_azimuth (radians lat1) (radians lon1) (radians lat2) (radians lon2))"
  have b: "- 180 < ?t \<and> ?t \<le> 180" unfolding forward_azimuth_def by (rule degrees_atan2_bounds)
  have "calculate_bearing lat1 lon1 lat2 lon2 = py_mod (?t + 360) 360"
    by (simp add: calculate_bearing_def forward_azimuth_def Let_def radians_diff)
  also have "\<dots> = (if ?t < 0 then ?t + 360 else ?t)" using b by (simp add: py_mod_360)
  finally have 1: "calculate_bearing lat1 lon1 lat2 lon2 = (if ?t < 0 then ?t + 360 else ?t)" .
  from 1 bearing_range [of lat1 lon1 lat2 lon2] show ?thesis by (simp add: Let_def)
qed

text \<open>
  C9: the bearing from a point to itself is \<open>0\<close>. The function is a total function of four
  reals: no division, no partial operation, and \<open>atan2\<close> is \<open>0\<close> at the origin.
\<close>

theorem calculate_bearing_same_point: "calculate_bearing la lo la lo = 0"
  by (simp add: calculate_bearing_def radians_def atan2_def degrees_def py_mod_def)

text \<open>Two bearings a route can have: due north is \<open>0\<close>, due south is \<open>180\<close>.\<close>

lemma sin_one_degree_pos: "0 < sin (pi / 180)"
  by (rule sin_gt_zero) simp_all

lemma bearing_north: "calculate_bearing 0 0 1 0 = 0"
  using sin_one_degree_pos
  by (simp add: calculate_bearing_def radians_def atan2_def degrees_def py_mod_def)

lemma bearing_south: "calculate_bearing 1 0 0 0 = 180"
proof -
  have "atan2 0 (- sin (pi / 180)) = pi" using sin_one_degree_pos by (simp add: atan2_def)
  then have "calculate_bearing 1 0 0 0 = py_mod (180 + 360) 360"
    by (simp add: calculate_bearing_def radians_def degrees_def)
  also have "\<dots> = 180" using py_mod_shift [of 360 540] by simp
  finally show ?thesis .
qed

subsection \<open>Turn angles\<close>

text \<open>
  C2, as the code has it: for bearings in \<open>[0, 360)\<close> the turn angle is the difference
  \<open>bearing2 - bearing1\<close>, or that difference minus or plus 360, and lies in the closed
  interval \<open>[-180, 180]\<close>. A difference of exactly \<open>-180\<close> is left as \<open>-180\<close>; every other
  difference gives an angle above \<open>-180\<close>.
\<close>

theorem turn_angle_normalized:
  assumes "0 \<le> bearing1" "bearing1 < 360" "0 \<le> bearing2" "bearing2 < 360"
  shows "(turn_angle bearing1 bearing2 = bearing2 - bearing1
          \<or> turn_angle bearing1 bearing2 = bearing2 - bearing1 - 360
          \<or> turn_angle bearing1 bearing2 = bearing2 - bearing1 + 360)
       \<and> - 180 \<le> turn_angle bearing1 bearing2 \<and> turn_angle bearing1 bearing2 \<le> 180
       \<and> (bearing2 - bearing1 = - 180 \<longrightarrow> turn_angle bearing1 bearing2 = - 180)
       \<and> (bearing2 - bearing1 \<noteq> - 180 \<longrightarrow> - 180 < turn_angle bearing1 bearing2)"
  using assms by (auto simp: turn_angle_def Let_def)

theorem turn_angle_normalized_witness:
  "turn_angle 350 10 = 20 \<and> turn_angle 180 0 = - 180 \<and> - 180 \<le> turn_angle 180 0"
  using turn_angle_normalized [of 350 10] turn_angle_normalized [of 180 0] by auto

text \<open>
  C2 as the specification states it fails: walking due south and then due north, the
  bearings are \<open>180\<close> and \<open>0\<close>, the difference \<open>-180\<close> is not below \<open>-180\<close>, and the turn
  angle stays \<open>-180\<close>, outside \<open>(-180, 180]\<close>.
\<close>

theorem turn_angle_minus_180_counterexample:
  "calculate_bearing 1 0 0 0 = 180 \<and> calculate_bearing 0 0 1 0 = 0
   \<and> turn_angle (calculate_bearing 1 0 0 0) (calculate_bearing 0 0 1 0) = - 180
   \<and> \<not> (- 180 < turn_angle (calculate_bearing 1 0 0 0) (calculate_bearing 0 0 1 0))"
  by (simp add: bearing_north bearing_south turn_angle_def)

subsection \<open>The handler, step by step\<close>

lemma get_turn_instruction_table:
  assumes "- 180 \<le> a" "a \<le> 180"
  shows "\<exists>row. spec_turn a = Some row \<and> get_turn_instruction a = wording row"
  using assms by (auto simp: spec_turn_def get_turn_instruction_def)

lemma straight_iff: "get_turn_instruction a = ''Continue straight'' \<longleftrightarrow> - 20 \<le> a \<and> a \<le> 20"
  by (simp add: get_turn_instruction_def)

lemma wording_straight_iff: "wording row = ''Continue straight'' \<longleftrightarrow> row = Continue_straight"
  by (cases row) simp_all

lemma route_edges_length: "route_edges G p = Inr es \<Longrightarrow> length es = length p - 1"
  by (induction G p arbitrary: es rule: route_edges.induct)
     (auto split: option.splits sum.splits)

lemma route_edges_nth:
  "route_edges G p = Inr es \<Longrightarrow> i + 1 < length p \<Longrightarrow>
     \<exists>d. get_edge_data G (p ! i) (p ! (i + 1)) = Some d \<and> d 0 = Some (es ! i)"
proof (induction G p arbitrary: es i rule: route_edges.induct)
  case (1 G u v rest)
  then show ?case
    by (cases i) (auto split: option.splits sum.splits)
qed simp_all

lemma turn_loop_result:
  "turn_loop G p es js acc = Inr ds \<Longrightarrow>
     ds = acc @ concat (map (appended_at G p es) js) \<and> (\<forall>j\<in>set js. \<exists>r. turn_at G p es j = Inr r)"
proof (induction js arbitrary: acc)
  case Nil
  then show ?case by simp
next
  case (Cons j js)
  from Cons.prems obtain r where r: "turn_at G p es j = Inr r"
    by (auto split: sum.splits)
  show ?case
  proof (cases r)
    case None
    with r Cons.prems have "turn_loop G p es js acc = Inr ds" by simp
    from Cons.IH [OF this] r None show ?thesis by (simp add: appended_at_def)
  next
    case (Some d)
    with r Cons.prems have "turn_loop G p es js (acc @ [d]) = Inr ds" by simp
    from Cons.IH [OF this] r Some show ?thesis by (simp add: appended_at_def)
  qed
qed

lemma directions_of_result:
  assumes "directions_of G p = Inr ds" "2 \<le> length p"
  shows "\<exists>es nm. route_edges G p = Inr es \<and> street_name (es ! 0) = Inr nm
           \<and> ds = \<lparr>instruction = ''Head toward <strong>'' @ nm @ ''</strong>'',
                    distance = rounded_length (es ! 0)\<rparr>
                  # concat (map (appended_at G p es) [1 ..< length p - 1])
           \<and> (\<forall>j\<in>set [1 ..< length p - 1]. \<exists>r. turn_at G p es j = Inr r)"
proof -
  from assms obtain es where es: "route_edges G p = Inr es"
    by (auto simp: directions_of_def split: sum.splits)
  with assms obtain nm where nm: "street_name (es ! 0) = Inr nm"
    by (auto simp: directions_of_def Let_def split: sum.splits)
  let ?h = "\<lparr>instruction = ''Head toward <strong>'' @ nm @ ''</strong>'',
              distance = rounded_length (es ! 0)\<rparr>"
  from assms es nm have "turn_loop G p es [1 ..< length p - 1] [?h] = Inr ds"
    by (simp add: directions_of_def Let_def)
  from turn_loop_result [OF this] es nm show ?thesis by auto
qed

lemma turn_at_result:
  assumes "turn_at G p es i = Inr r"
  shows "\<exists>prev curr nxt nm.
           nodes G (p ! (i - 1)) = Some prev \<and> nodes G (p ! i) = Some curr
         \<and> nodes G (p ! (i + 1)) = Some nxt \<and> street_name (es ! i) = Inr nm
         \<and> r = (let a = turn_angle
                          (calculate_bearing (fst prev) (snd prev) (fst curr) (snd curr))
                          (calculate_bearing (fst curr) (snd curr) (fst nxt) (snd nxt))
                in if get_turn_instruction a \<noteq> ''Continue straight''
                   then Some \<lparr>instruction = get_turn_instruction a @ '' onto <strong>'' @ nm
                                              @ ''</strong>'',
                              distance = rounded_length (es ! i)\<rparr>
                   else None)"
  using assms
  by (auto simp: turn_at_def node_at_def Let_def split: sum.splits option.splits if_splits)

lemma path_coords_map: "path_coords G p = Inr cs \<Longrightarrow> map (nodes G) p = map Some cs"
  by (induction p arbitrary: cs) (auto simp: node_at_def split: sum.splits option.splits)

lemma get_path_result:
  assumes "get_path L G req = Inr r"
  shows "\<exists>s t p total.
           nearest_nodes L G (lon (source req)) (lat (source req)) = Inr s
         \<and> nearest_nodes L G (lon (target req)) (lat (target req)) = Inr t
         \<and> shortest_path L G s t = Inr p \<and> shortest_path_length L G s t = Inr total
         \<and> path_coords G p = Inr (path r) \<and> directions_of G p = Inr (directions r)
         \<and> total_distance r = py_round2 total"
  using assms by (auto simp: get_path_def split: sum.splits)

text \<open>The directions are produced for every well-formed node sequence.\<close>

lemma route_edges_succeeds:
  "\<forall>i. i + 1 < length p \<longrightarrow> (\<exists>d e. get_edge_data G (p ! i) (p ! (i + 1)) = Some d \<and> d 0 = Some e)
     \<Longrightarrow> \<exists>es. route_edges G p = Inr es"
proof (induction G p rule: route_edges.induct)
  case (1 G u v rest)
  from "1.prems" [rule_format, of 0] obtain d e where
    d: "get_edge_data G u v = Some d" "d 0 = Some e" by auto
  have "\<forall>i. i + 1 < length (v # rest) \<longrightarrow>
          (\<exists>d e. get_edge_data G ((v # rest) ! i) ((v # rest) ! (i + 1)) = Some d \<and> d 0 = Some e)"
  proof (intro allI impI)
    fix i assume "i + 1 < length (v # rest)"
    with "1.prems" [rule_format, of "Suc i"]
    show "\<exists>d e. get_edge_data G ((v # rest) ! i) ((v # rest) ! (i + 1)) = Some d \<and> d 0 = Some e"
      by simp
  qed
  from "1.IH" [OF d this] obtain es where "route_edges G (v # rest) = Inr es" by blast
  with d show ?case by simp
qed simp_all

lemma street_name_succeeds: "name e \<noteq> Some (StrList []) \<Longrightarrow> \<exists>nm. street_name e = Inr nm"
  by (auto simp: street_name_def split: option.splits name_value.splits list.splits)

lemma turn_at_succeeds:
  assumes "nodes G (p ! (i - 1)) \<noteq> None" "nodes G (p ! i) \<noteq> None" "nodes G (p ! (i + 1)) \<noteq> None"
    and "street_name (es ! i) = Inr nm"
  shows "\<exists>r. turn_at G p es i = Inr r"
  using assms by (auto simp: turn_at_def node_at_def Let_def)

lemma turn_loop_succeeds:
  "\<forall>j\<in>set js. \<exists>r. turn_at G p es j = Inr r \<Longrightarrow> \<exists>ds. turn_loop G p es js acc = Inr ds"
proof (induction js arbitrary: acc)
  case Nil
  then show ?case by simp
next
  case (Cons j js)
  then obtain r where r: "turn_at G p es j = Inr r" by auto
  from Cons have rest: "\<And>acc. \<exists>ds. turn_loop G p es js acc = Inr ds" by simp
  show ?case
  proof (cases r)
    case None
    with r rest [of acc] show ?thesis by simp
  next
    case (Some d)
    with r rest [of "acc @ [d]"] show ?thesis by simp
  qed
qed

lemma directions_of_succeeds:
  assumes "well_formed_route G p"
  shows "\<exists>ds. directions_of G p = Inr ds"
proof (cases "length p < 2")
  case True
  then show ?thesis by (simp add: directions_of_def)
next
  case False
  from assms have n: "\<forall>n\<in>set p. nodes G n \<noteq> None" and
    e: "\<forall>i. i + 1 < length p \<longrightarrow>
          (\<exists>d e. get_edge_data G (p ! i) (p ! (i + 1)) = Some d \<and> d 0 = Some e
                 \<and> name e \<noteq> Some (StrList []))"
    unfolding well_formed_route_def by simp_all
  from e have "\<forall>i. i + 1 < length p \<longrightarrow>
      (\<exists>d e. get_edge_data G (p ! i) (p ! (i + 1)) = Some d \<and> d 0 = Some e)" by blast
  from route_edges_succeeds [OF this] obtain es where es: "route_edges G p = Inr es" by blast
  have nm: "\<exists>nm. street_name (es ! i) = Inr nm" if "i + 1 < length p" for i
  proof -
    from e that obtain d x where "get_edge_data G (p ! i) (p ! (i + 1)) = Some d" "d 0 = Some x"
      "name x \<noteq> Some (StrList [])" by blast
    moreover from route_edges_nth [OF es that] obtain d' where
      "get_edge_data G (p ! i) (p ! (i + 1)) = Some d'" "d' 0 = Some (es ! i)" by blast
    ultimately have "name (es ! i) \<noteq> Some (StrList [])" by simp
    then show ?thesis by (rule street_name_succeeds)
  qed
  from False nm [of 0] obtain nm0 where nm0: "street_name (es ! 0) = Inr nm0" by auto
  have "\<forall>j\<in>set [1 ..< length p - 1]. \<exists>r. turn_at G p es j = Inr r"
  proof
    fix j assume "j \<in> set [1 ..< length p - 1]"
    then have j: "1 \<le> j" "j + 1 < length p" by auto
    from nm [OF j(2)] obtain x where x: "street_name (es ! j) = Inr x" by blast
    from j n have "nodes G (p ! (j - 1)) \<noteq> None" "nodes G (p ! j) \<noteq> None"
      "nodes G (p ! (j + 1)) \<noteq> None" by simp_all
    then show "\<exists>r. turn_at G p es j = Inr r" using x by (rule turn_at_succeeds)
  qed
  from turn_loop_succeeds [OF this] False es nm0 show ?thesis
    by (simp add: directions_of_def Let_def)
qed

subsection \<open>The example graph, evaluated\<close>

lemma sin_small_pos: "0 < sin (pi / 180000)"
  by (rule sin_gt_zero) simp_all

lemma bearing_east: "calculate_bearing 0 0 0 (1 / 1000) = 90"
proof -
  have a: "atan2 (sin (pi / 180000)) 0 = pi / 2" using sin_small_pos by (simp add: atan2_def)
  have "calculate_bearing 0 0 0 (1 / 1000) = py_mod (90 + 360) 360"
    by (simp add: calculate_bearing_def radians_def degrees_def a)
  also have "\<dots> = 90" using py_mod_shift [of 360 450] by simp
  finally show ?thesis .
qed

lemma bearing_north_leg: "calculate_bearing 0 (1 / 1000) (1 / 1000) (1 / 1000) = 0"
  using sin_small_pos
  by (simp add: calculate_bearing_def radians_def atan2_def degrees_def py_mod_def)

lemma py_round_examples: "py_round (502 / 5) = 100" "py_round (159 / 2) = 80" "py_round 100 = 100"
  "py_round 50 = 50" "py_round 0 = 0"
  by (simp_all add: py_round_def Let_def)

lemma py_round2_examples: "py_round2 (1799 / 10) = 1799 / 10" "py_round2 0 = 0"
  by (simp_all add: py_round2_def py_round_def Let_def)

lemma campus_route_edges: "route_edges campus [1, 2, 3] = Inr [oak_st, pine_st]"
  by (simp add: campus_def)

lemma campus_turn: "turn_at campus [1, 2, 3] [e, pine_st] (Suc 0) =
   Inr (Some \<lparr>instruction = ''Turn left onto <strong>Pine St</strong>'', distance = 80\<rparr>)"
  by (simp add: turn_at_def node_at_def campus_def bearing_east bearing_north_leg turn_angle_def
      get_turn_instruction_def street_name_def pine_st_def rounded_length_def py_round_examples)

lemma campus_directions: "directions_of campus [1, 2, 3] =
   Inr [\<lparr>instruction = ''Head toward <strong>Oak St</strong>'', distance = 100\<rparr>,
        \<lparr>instruction = ''Turn left onto <strong>Pine St</strong>'', distance = 80\<rparr>]"
proof -
  have n: "street_name oak_st = Inr ''Oak St''" by (simp add: street_name_def oak_st_def)
  have r: "rounded_length oak_st = 100"
    by (simp add: rounded_length_def oak_st_def py_round_examples)
  have i: "[1 ..< length [1, 2, 3 :: node] - 1] = [Suc 0]" by simp
  show ?thesis
    unfolding directions_of_def campus_route_edges i
    by (simp add: n r campus_turn)
qed

lemma campus_edges:
  "get_edge_data campus u v =
     (if (u = 1 \<and> v = 2) \<or> (u = 2 \<and> v = 1) then Some [0 \<mapsto> oak_st]
      else if (u = 2 \<and> v = 3) \<or> (u = 3 \<and> v = 2) then Some [0 \<mapsto> pine_st]
      else None)"
  by (simp add: campus_def)

lemma campus_nodes: "nodes campus a = None \<longleftrightarrow> a \<notin> {1, 2, 3, 4}"
  by (simp add: campus_def)

lemma campus_walks:
  "is_walk campus [1]" "is_walk campus [2]" "is_walk campus [3]" "is_walk campus [4]"
  "is_walk campus [1, 2]" "is_walk campus [2, 1]" "is_walk campus [2, 3]" "is_walk campus [3, 2]"
  "is_walk campus [1, 2, 3]" "is_walk campus [3, 2, 1]"
  by (simp_all add: campus_nodes campus_edges)

lemma campus_routes:
  "campus_route 1 2 = [1, 2]" "campus_route 2 1 = [2, 1]" "campus_route 2 3 = [2, 3]"
  "campus_route 3 2 = [3, 2]" "campus_route 1 3 = [1, 2, 3]" "campus_route 3 1 = [3, 2, 1]"
  by (simp_all add: campus_route_def)

lemma campus_path_is_walk:
  assumes "shortest_path campus_library campus s t = Inr w"
  shows "is_walk campus w \<and> hd w = s \<and> last w = t"
proof -
  from assms have st: "s \<in> {1, 2, 3, 4}" "t \<in> {1, 2, 3, 4}"
    by (auto simp: campus_library_def split: if_splits)
  show ?thesis
  proof (cases "s = t")
    case True
    with assms st have "w = [s]" by (auto simp: campus_library_def)
    with st show ?thesis using True by (auto simp: campus_nodes)
  next
    case False
    with assms st have 4: "s \<noteq> 4" "t \<noteq> 4" and w: "w = campus_route s t"
      by (auto simp: campus_library_def split: if_splits)
    from st 4 False consider "s = 1 \<and> t = 2" | "s = 2 \<and> t = 1" | "s = 2 \<and> t = 3"
      | "s = 3 \<and> t = 2" | "s = 1 \<and> t = 3" | "s = 3 \<and> t = 1" by auto
    then show ?thesis by cases (simp_all add: w campus_routes campus_nodes campus_edges)
  qed
qed

lemma campus_contract: "networkx_contract campus_library campus"
proof -
  have 1: "\<forall>a. nodes campus a \<noteq> None \<longrightarrow>
        shortest_path campus_library campus a a = Inr [a]
      \<and> shortest_path_length campus_library campus a a = Inr 0"
  proof (intro allI impI)
    fix a assume "nodes campus a \<noteq> None"
    then have "a \<in> {1, 2, 3, 4}" by (simp add: campus_nodes)
    then show "shortest_path campus_library campus a a = Inr [a]
      \<and> shortest_path_length campus_library campus a a = Inr 0"
      by (simp add: campus_library_def)
  qed
  have 2: "\<forall>s t. nodes campus s \<noteq> None \<and> nodes campus t \<noteq> None \<and> \<not> reachable campus s t \<longrightarrow>
        shortest_path campus_library campus s t = Inl NetworkXNoPath"
  proof (intro allI impI, elim conjE)
    fix s t
    assume s: "nodes campus s \<noteq> None" and t: "nodes campus t \<noteq> None"
      and n: "\<not> reachable campus s t"
    from s t have st: "\<not> (s \<notin> {1, 2, 3, 4} \<or> t \<notin> {1, 2, 3, 4})" by (simp add: campus_nodes)
    have "s \<noteq> t \<and> (s = 4 \<or> t = 4)"
    proof (rule ccontr)
      assume "\<not> (s \<noteq> t \<and> (s = 4 \<or> t = 4))"
      then have "s = t \<or> (s \<noteq> t \<and> s \<noteq> 4 \<and> t \<noteq> 4)" by blast
      with st have "\<exists>w. shortest_path campus_library campus s t = Inr w"
        unfolding campus_library_def by (elim disjE) (simp_all del: insert_iff)
      then obtain w where "shortest_path campus_library campus s t = Inr w" ..
      from campus_path_is_walk [OF this] have "reachable campus s t"
        unfolding reachable_def by (intro exI [of _ w])
      with n show False by simp
    qed
    with st show "shortest_path campus_library campus s t = Inl NetworkXNoPath"
      unfolding campus_library_def by (simp del: insert_iff)
  qed
  have 3: "\<forall>s t w. shortest_path campus_library campus s t = Inr w \<longrightarrow>
        is_walk campus w \<and> hd w = s \<and> last w = t"
    using campus_path_is_walk by (intro allI impI)
  show ?thesis unfolding networkx_contract_def by (rule conjI [OF 1 conjI [OF 2 3]])
qed



subsection \<open>The first instruction\<close>

lemma turn_angle_range:
  "0 \<le> b1 \<Longrightarrow> b1 < 360 \<Longrightarrow> 0 \<le> b2 \<Longrightarrow> b2 < 360 \<Longrightarrow>
     - 180 \<le> turn_angle b1 b2 \<and> turn_angle b1 b2 \<le> 180"
  by (auto simp: turn_angle_def Let_def)

lemma turn_angle_of_bearings:
  "- 180 \<le> turn_angle (calculate_bearing a b c d) (calculate_bearing c d e f)
   \<and> turn_angle (calculate_bearing a b c d) (calculate_bearing c d e f) \<le> 180"
  using bearing_range [of a b c d] bearing_range [of c d e f] by (intro turn_angle_range) simp_all

lemma street_name_cases:
  "street_name e = Inr nm \<Longrightarrow>
     name e \<noteq> Some (StrList [])
     \<and> nm = (case name e of None \<Rightarrow> ''Unnamed Path'' | Some (Str s) \<Rightarrow> s
                           | Some (StrList as) \<Rightarrow> hd as)"
  by (auto simp: street_name_def split: option.splits name_value.splits list.splits)

text \<open>
  C4: for a node sequence of at least two nodes whose directions are produced, the list is
  not empty and its first element is the instruction \<open>Head toward\<close> naming the street of the
  first edge (the edge under key \<open>0\<close> between the first two nodes): the placeholder
  \<open>Unnamed Path\<close> when the edge has no name, the name itself when it is one string, the
  first alias when it is a list. Its distance is the first edge's length (\<open>0\<close> when the
  edge has none) rounded to a nearest whole number.
\<close>

theorem first_instruction_heads_toward_first_street:
  assumes "directions_of G p = Inr ds" "2 \<le> length p"
  shows "\<exists>d e. get_edge_data G (p ! 0) (p ! 1) = Some d \<and> d 0 = Some e
      \<and> name e \<noteq> Some (StrList [])
      \<and> ds \<noteq> []
      \<and> hd ds = \<lparr>instruction = ''Head toward <strong>''
                     @ (case name e of None \<Rightarrow> ''Unnamed Path'' | Some (Str s) \<Rightarrow> s
                                     | Some (StrList as) \<Rightarrow> hd as)
                     @ ''</strong>'',
                   distance = py_round (case length_attr e of None \<Rightarrow> 0 | Some l \<Rightarrow> l)\<rparr>
      \<and> \<bar>of_int (distance (hd ds)) - (case length_attr e of None \<Rightarrow> 0 | Some l \<Rightarrow> l)\<bar> \<le> 1 / 2"
proof -
  from directions_of_result [OF assms] obtain es nm where
    es: "route_edges G p = Inr es" and nm: "street_name (es ! 0) = Inr nm" and
    ds: "ds = \<lparr>instruction = ''Head toward <strong>'' @ nm @ ''</strong>'',
                distance = rounded_length (es ! 0)\<rparr>
              # concat (map (appended_at G p es) [1 ..< length p - 1])"
    by blast
  from assms(2) have "0 + 1 < length p" by simp
  from route_edges_nth [OF es this] obtain d where
    d: "get_edge_data G (p ! 0) (p ! 1) = Some d" "d 0 = Some (es ! 0)" by auto
  from street_name_cases [OF nm] have n: "name (es ! 0) \<noteq> Some (StrList [])"
    "nm = (case name (es ! 0) of None \<Rightarrow> ''Unnamed Path'' | Some (Str s) \<Rightarrow> s
                               | Some (StrList as) \<Rightarrow> hd as)" by simp_all
  have r: "\<bar>of_int (rounded_length (es ! 0))
             - (case length_attr (es ! 0) of None \<Rightarrow> 0 | Some l \<Rightarrow> l)\<bar> \<le> 1 / 2"
    unfolding rounded_length_def by (rule py_round_nearest)
  show ?thesis
    apply (rule exI [of _ d], rule exI [of _ "es ! 0"])
    using d n r by (simp add: ds rounded_length_def)
qed

text \<open>On the example graph the first street has two aliases and a length of 100.4.\<close>

theorem first_instruction_heads_toward_first_street_witness:
  "directions_of campus [1, 2, 3] =
     Inr [\<lparr>instruction = ''Head toward <strong>Oak St</strong>'', distance = 100\<rparr>,
          \<lparr>instruction = ''Turn left onto <strong>Pine St</strong>'', distance = 80\<rparr>]
   \<and> (\<exists>d e. get_edge_data campus 1 2 = Some d \<and> d 0 = Some e
        \<and> name e = Some (StrList [''Oak St'', ''Old Oak Rd''])
        \<and> \<bar>100 - (case length_attr e of None \<Rightarrow> 0 | Some l \<Rightarrow> l)\<bar> \<le> 1 / 2)"
proof -
  have "2 \<le> length [1, 2, 3 :: node]" by simp
  from first_instruction_heads_toward_first_street [OF campus_directions this]
  obtain d e where "get_edge_data campus 1 2 = Some d" "d 0 = Some e"
    "\<bar>100 - (case length_attr e of None \<Rightarrow> 0 | Some l \<Rightarrow> l)\<bar> \<le> 1 / 2"
    by auto
  moreover from this have "name e = Some (StrList [''Oak St'', ''Old Oak Rd''])"
    by (auto simp: campus_edges oak_st_def split: if_splits)
  ultimately show ?thesis using campus_directions by blast
qed

subsection \<open>Turns at the interior nodes\<close>

text \<open>
  C1: at every interior node \<open>i\<close> of a route whose directions are produced, the turn angle
  (outgoing bearing minus incoming bearing, normalized) falls in a row of the
  specification's table, \<^verbatim>\<open>get_turn_instruction\<close> gives that row's wording, and the loop
  appends nothing for the row \<open>Continue straight\<close> and otherwise one instruction: the
  wording, \<open>onto\<close>, the street of the outgoing edge, with that edge's rounded length. The
  directions after the first are exactly what the loop appends at the interior nodes in
  order. Bearings \<open>0\<close> and \<open>45\<close> give a slight right, bearings \<open>0\<close> and \<open>200\<close> a sharp left.
\<close>

theorem turn_instructions_follow_table:
  assumes "directions_of G p = Inr ds" "1 \<le> i" "i + 1 < length p"
  shows "(\<exists>es prev curr nxt d e nm a row.
            route_edges G p = Inr es
          \<and> tl ds = concat (map (appended_at G p es) [1 ..< length p - 1])
          \<and> nodes G (p ! (i - 1)) = Some prev \<and> nodes G (p ! i) = Some curr
          \<and> nodes G (p ! (i + 1)) = Some nxt
          \<and> a = turn_angle (calculate_bearing (fst prev) (snd prev) (fst curr) (snd curr))
                            (calculate_bearing (fst curr) (snd curr) (fst nxt) (snd nxt))
          \<and> spec_turn a = Some row \<and> get_turn_instruction a = wording row
          \<and> get_edge_data G (p ! i) (p ! (i + 1)) = Some d \<and> d 0 = Some e
          \<and> street_name e = Inr nm
          \<and> appended_at G p es i =
              (if row = Continue_straight then []
               else [\<lparr>instruction = wording row @ '' onto <strong>'' @ nm @ ''</strong>'',
                      distance = py_round (case length_attr e of None \<Rightarrow> 0 | Some l \<Rightarrow> l)\<rparr>]))
       \<and> spec_turn (turn_angle 0 45) = Some Slight_right
       \<and> get_turn_instruction (turn_angle 0 45) = ''Make a slight right''
       \<and> spec_turn (turn_angle 0 200) = Some Sharp_left
       \<and> get_turn_instruction (turn_angle 0 200) = ''Make a sharp left''"
proof -
  from assms have len: "2 \<le> length p" by simp
  from directions_of_result [OF assms(1) len] obtain es nm0 where
    es: "route_edges G p = Inr es" and
    ds: "ds = \<lparr>instruction = ''Head toward <strong>'' @ nm0 @ ''</strong>'',
                distance = rounded_length (es ! 0)\<rparr>
              # concat (map (appended_at G p es) [1 ..< length p - 1])" and
    ok: "\<forall>j\<in>set [1 ..< length p - 1]. \<exists>r. turn_at G p es j = Inr r"
    by blast
  from assms have "i \<in> set [1 ..< length p - 1]" by simp
  with ok obtain r where r: "turn_at G p es i = Inr r" by blast
  from turn_at_result [OF r] obtain prev curr nxt nm where
    n: "nodes G (p ! (i - 1)) = Some prev" "nodes G (p ! i) = Some curr"
       "nodes G (p ! (i + 1)) = Some nxt" and
    nm: "street_name (es ! i) = Inr nm" and
    rv: "r = (let a = turn_angle
                        (calculate_bearing (fst prev) (snd prev) (fst curr) (snd curr))
                        (calculate_bearing (fst curr) (snd curr) (fst nxt) (snd nxt))
              in if get_turn_instruction a \<noteq> ''Continue straight''
                 then Some \<lparr>instruction = get_turn_instruction a @ '' onto <strong>'' @ nm
                                            @ ''</strong>'',
                            distance = rounded_length (es ! i)\<rparr>
                 else None)"
    by blast
  define a where "a = turn_angle (calculate_bearing (fst prev) (snd prev) (fst curr) (snd curr))
                            (calculate_bearing (fst curr) (snd curr) (fst nxt) (snd nxt))"
  have "- 180 \<le> a \<and> a \<le> 180" unfolding a_def by (rule turn_angle_of_bearings)
  then obtain row where row: "spec_turn a = Some row" "get_turn_instruction a = wording row"
    using get_turn_instruction_table [of a] by blast
  from route_edges_nth [OF es assms(3)] obtain d where
    d: "get_edge_data G (p ! i) (p ! (i + 1)) = Some d" "d 0 = Some (es ! i)" by blast
  have app: "appended_at G p es i =
              (if row = Continue_straight then []
               else [\<lparr>instruction = wording row @ '' onto <strong>'' @ nm @ ''</strong>'',
                      distance = py_round (case length_attr (es ! i) of None \<Rightarrow> 0 | Some l \<Rightarrow> l)\<rparr>])"
    using row(2) by (simp add: appended_at_def r rv a_def [symmetric] Let_def
        wording_straight_iff rounded_length_def)
  have tl: "tl ds = concat (map (appended_at G p es) [1 ..< length p - 1])" by (simp add: ds)
  have first: "\<exists>es prev curr nxt d e nm a row.
            route_edges G p = Inr es
          \<and> tl ds = concat (map (appended_at G p es) [1 ..< length p - 1])
          \<and> nodes G (p ! (i - 1)) = Some prev \<and> nodes G (p ! i) = Some curr
          \<and> nodes G (p ! (i + 1)) = Some nxt
          \<and> a = turn_angle (calculate_bearing (fst prev) (snd prev) (fst curr) (snd curr))
                            (calculate_bearing (fst curr) (snd curr) (fst nxt) (snd nxt))
          \<and> spec_turn a = Some row \<and> get_turn_instruction a = wording row
          \<and> get_edge_data G (p ! i) (p ! (i + 1)) = Some d \<and> d 0 = Some e
          \<and> street_name e = Inr nm
          \<and> appended_at G p es i =
              (if row = Continue_straight then []
               else [\<lparr>instruction = wording row @ '' onto <strong>'' @ nm @ ''</strong>'',
                      distance = py_round (case length_attr e of None \<Rightarrow> 0 | Some l \<Rightarrow> l)\<rparr>])"
    using es tl n a_def row d nm app by blast
  have ex: "spec_turn (turn_angle 0 45) = Some Slight_right"
    "get_turn_instruction (turn_angle 0 45) = ''Make a slight right''"
    "spec_turn (turn_angle 0 200) = Some Sharp_left"
    "get_turn_instruction (turn_angle 0 200) = ''Make a sharp left''"
    by (simp_all add: turn_angle_def spec_turn_def get_turn_instruction_def)
  from first ex show ?thesis by (intro conjI)
qed

text \<open>On the example graph the walk goes east, then north: a left turn at the second node.\<close>

theorem turn_instructions_follow_table_witness:
  "directions_of campus [1, 2, 3] =
     Inr [\<lparr>instruction = ''Head toward <strong>Oak St</strong>'', distance = 100\<rparr>,
          \<lparr>instruction = ''Turn left onto <strong>Pine St</strong>'', distance = 80\<rparr>]
   \<and> (\<exists>es. route_edges campus [1, 2, 3] = Inr es
          \<and> [\<lparr>instruction = ''Turn left onto <strong>Pine St</strong>'', distance = 80\<rparr>]
              = concat (map (appended_at campus [1, 2, 3] es) [1 ..< length [1, 2, 3 :: node] - 1]))
   \<and> get_turn_instruction (turn_angle 0 45) = ''Make a slight right''"
proof -
  have "(1 :: nat) \<le> 1" "1 + 1 < length [1, 2, 3 :: node]" by simp_all
  from turn_instructions_follow_table [OF campus_directions this]
  show ?thesis using campus_directions by auto
qed

subsection \<open>The handler and the path search\<close>

lemma campus_nearest:
  "nearest_nodes campus_library G x y =
     Inr (if 3 / 2000 \<le> y then 4 else if 1 / 2000 \<le> y then 3 else if 1 / 2000 \<le> x then 2 else 1)"
  by (simp add: campus_library_def)






lemma directions_of_short: "length p < 2 \<Longrightarrow> directions_of G p = Inr []"
  by (simp add: directions_of_def)

text \<open>
  C6: when source and target both resolve to a node \<open>a\<close> of the graph, the response is the
  one-element path of the coordinates of \<open>a\<close>, total distance \<open>0\<close> and no directions; and
  for every node sequence of fewer than two nodes the directions are the empty list,
  with no error.
\<close>

theorem same_node_route:
  assumes "networkx_contract L G" and "nodes G a = Some c"
    and "nearest_nodes L G (lon (source req)) (lat (source req)) = Inr a"
    and "nearest_nodes L G (lon (target req)) (lat (target req)) = Inr a"
  shows "get_path L G req = Inr \<lparr>path = [c], total_distance = 0, directions = []\<rparr>
       \<and> (\<forall>p. length p < 2 \<longrightarrow> directions_of G p = Inr [])"
proof -
  from assms(1,2) have "shortest_path L G a a = Inr [a]" "shortest_path_length L G a a = Inr 0"
    unfolding networkx_contract_def by simp_all
  moreover have "py_round2 0 = 0" by (simp add: py_round2_def py_round_def)
  ultimately have "get_path L G req = Inr \<lparr>path = [c], total_distance = 0, directions = []\<rparr>"
    using assms(2,3,4) by (simp add: get_path_def node_at_def directions_of_short)
  then show ?thesis by (simp add: directions_of_short)
qed

text \<open>On the example graph, with both points nearest to the second node.\<close>

theorem same_node_route_witness:
  "get_path campus_library campus here_request =
     Inr \<lparr>path = [(0, 1 / 1000)], total_distance = 0, directions = []\<rparr>
   \<and> directions_of campus [] = Inr [] \<and> directions_of campus [2] = Inr []"
proof -
  have s: "nearest_nodes campus_library campus (lon (source here_request)) (lat (source here_request))
             = Inr 2"
    by (simp add: campus_nearest here_request_def)
  have t: "nearest_nodes campus_library campus (lon (target here_request)) (lat (target here_request))
             = Inr 2"
    by (simp add: campus_nearest here_request_def)
  have n: "nodes campus 2 = Some (0, 1 / 1000)" by (simp add: campus_def)
  from same_node_route [OF campus_contract n s t] show ?thesis by simp
qed

lemma path_coords_length: "path_coords G p = Inr cs \<Longrightarrow> length cs = length p"
  using path_coords_map [of G p cs] by (metis length_map)

text \<open>
  C10: in every successful response the path is the list of \<open>(lat, lon)\<close> of the nodes of
  the computed shortest path, in order and of the same length, and its first and last
  elements are the coordinates of the nodes nearest to the requested source and target.
\<close>

theorem path_is_coordinates_of_route:
  assumes "networkx_contract L G" and "get_path L G req = Inr r"
  shows "\<exists>s t p. nearest_nodes L G (lon (source req)) (lat (source req)) = Inr s
           \<and> nearest_nodes L G (lon (target req)) (lat (target req)) = Inr t
           \<and> shortest_path L G s t = Inr p
           \<and> map (nodes G) p = map Some (path r)
           \<and> length (path r) = length p
           \<and> nodes G s = Some (hd (path r))
           \<and> nodes G t = Some (last (path r))"
proof -
  from get_path_result [OF assms(2)] obtain s t p where
    st: "nearest_nodes L G (lon (source req)) (lat (source req)) = Inr s"
        "nearest_nodes L G (lon (target req)) (lat (target req)) = Inr t" and
    p: "shortest_path L G s t = Inr p" and c: "path_coords G p = Inr (path r)"
    by blast
  from assms(1) p have w: "is_walk G p" "hd p = s" "last p = t"
    unfolding networkx_contract_def by blast+
  from w(1) have ne: "p \<noteq> []" by (cases p) simp_all
  have m: "map (nodes G) p = map Some (path r)" using c by (rule path_coords_map)
  have l: "length (path r) = length p" using c by (rule path_coords_length)
  from ne l have ne': "path r \<noteq> []" by auto
  have "nodes G (hd p) = hd (map (nodes G) p)" using ne by (simp add: hd_map)
  also have "\<dots> = Some (hd (path r))" using ne' by (simp add: m hd_map)
  finally have h: "nodes G s = Some (hd (path r))" by (simp add: w)
  have "nodes G (last p) = last (map (nodes G) p)" using ne by (simp add: last_map)
  also have "\<dots> = Some (last (path r))" using ne' by (simp add: m last_map)
  finally have la: "nodes G t = Some (last (path r))" by (simp add: w)
  from st p m l h la show ?thesis by blast
qed

lemma walk_response:
  "get_path campus_library campus walk_request =
     Inr \<lparr>path = [(0, 0), (0, 1 / 1000), (1 / 1000, 1 / 1000)],
          total_distance = 1799 / 10,
          directions =
            [\<lparr>instruction = ''Head toward <strong>Oak St</strong>'', distance = 100\<rparr>,
             \<lparr>instruction = ''Turn left onto <strong>Pine St</strong>'', distance = 80\<rparr>]\<rparr>"
proof -
  have s: "nearest_nodes campus_library campus (lon (source walk_request)) (lat (source walk_request))
             = Inr 1"
    by (simp add: campus_nearest walk_request_def)
  have t: "nearest_nodes campus_library campus (lon (target walk_request)) (lat (target walk_request))
             = Inr 3"
    by (simp add: campus_nearest walk_request_def)
  have p: "shortest_path campus_library campus 1 3 = Inr [1, 2, 3]"
    by (simp add: campus_library_def campus_route_def)
  have l: "shortest_path_length campus_library campus 1 3 = Inr (1799 / 10)"
    by (simp add: campus_library_def campus_mark_def)
  have c: "path_coords campus [1, 2, 3] = Inr [(0, 0), (0, 1 / 1000), (1 / 1000, 1 / 1000)]"
    by (simp add: node_at_def campus_def)
  show ?thesis
    unfolding get_path_def s t
    by (simp add: p l c campus_directions py_round2_examples del: path_coords.simps)
qed

text \<open>
  On the example graph the path starts at the first node's coordinates, not at the
  requested point.
\<close>

theorem path_is_coordinates_of_route_witness:
  "\<exists>r. get_path campus_library campus walk_request = Inr r
      \<and> nearest_nodes campus_library campus (lon (source walk_request)) (lat (source walk_request))
          = Inr 1
      \<and> nearest_nodes campus_library campus (lon (target walk_request)) (lat (target walk_request))
          = Inr 3
      \<and> nodes campus 1 = Some (hd (path r)) \<and> nodes campus 3 = Some (last (path r))
      \<and> length (path r) = 3
      \<and> hd (path r) \<noteq> (lat (source walk_request), lon (source walk_request))"
proof -
  let ?r = "\<lparr>path = [(0, 0), (0, 1 / 1000), (1 / 1000, 1 / 1000)],
          total_distance = 1799 / 10,
          directions =
            [\<lparr>instruction = ''Head toward <strong>Oak St</strong>'', distance = 100\<rparr>,
             \<lparr>instruction = ''Turn left onto <strong>Pine St</strong>'', distance = 80\<rparr>]\<rparr>"
  have s: "nearest_nodes campus_library campus (lon (source walk_request)) (lat (source walk_request))
             = Inr 1"
    by (simp add: campus_nearest walk_request_def)
  have t: "nearest_nodes campus_library campus (lon (target walk_request)) (lat (target walk_request))
             = Inr 3"
    by (simp add: campus_nearest walk_request_def)
  from path_is_coordinates_of_route [OF campus_contract walk_response] s t
  have "nodes campus 1 = Some (hd (path ?r)) \<and> nodes campus 3 = Some (last (path ?r))
      \<and> length (path ?r) = 3"
    by auto
  moreover have "hd (path ?r) \<noteq> (lat (source walk_request), lon (source walk_request))"
    by (simp add: walk_request_def)
  ultimately show ?thesis using walk_response s t by blast
qed

subsection \<open>Parallel edges\<close>

lemma appended_at_member:
  assumes "x \<in> set (appended_at G p es j)"
  shows "\<exists>nm pre. street_name (es ! j) = Inr nm
           \<and> instruction x = pre @ ''<strong>'' @ nm @ ''</strong>''
           \<and> distance x = rounded_length (es ! j)"
proof -
  from assms have r: "turn_at G p es j = Inr (Some x)"
    by (auto simp: appended_at_def split: sum.splits option.splits)
  from turn_at_result [OF r] obtain nm a where
    nm: "street_name (es ! j) = Inr nm" and
    x: "Some x = (if get_turn_instruction a \<noteq> ''Continue straight''
                 then Some \<lparr>instruction = get_turn_instruction a @ '' onto <strong>'' @ nm
                                            @ ''</strong>'',
                            distance = rounded_length (es ! j)\<rparr>
                 else None)"
    unfolding Let_def by blast
  from x have "instruction x = (get_turn_instruction a @ '' onto '') @ ''<strong>'' @ nm @ ''</strong>''"
    "distance x = rounded_length (es ! j)"
    by (auto split: if_splits)
  with nm show ?thesis by blast
qed

text \<open>
  The edge taken for each pair of consecutive route nodes is the parallel edge stored
  under key \<open>0\<close>, whatever its length, and the street name and the distance of every
  instruction come from such an edge.
\<close>

lemma instructions_use_edge_key_0:
  assumes "directions_of G p = Inr ds" "2 \<le> length p"
  shows "\<exists>es. route_edges G p = Inr es \<and> length es = length p - 1
      \<and> (\<forall>i. i + 1 < length p \<longrightarrow>
            (\<exists>d. get_edge_data G (p ! i) (p ! (i + 1)) = Some d \<and> d 0 = Some (es ! i)))
      \<and> (\<forall>x\<in>set ds. \<exists>i nm pre. i + 1 < length p \<and> street_name (es ! i) = Inr nm
            \<and> instruction x = pre @ ''<strong>'' @ nm @ ''</strong>''
            \<and> distance x = rounded_length (es ! i))"
proof -
  from directions_of_result [OF assms] obtain es nm where
    es: "route_edges G p = Inr es" and nm: "street_name (es ! 0) = Inr nm" and
    ds: "ds = \<lparr>instruction = ''Head toward <strong>'' @ nm @ ''</strong>'',
                distance = rounded_length (es ! 0)\<rparr>
              # concat (map (appended_at G p es) [1 ..< length p - 1])"
    by blast
  have keys: "\<forall>i. i + 1 < length p \<longrightarrow>
            (\<exists>d. get_edge_data G (p ! i) (p ! (i + 1)) = Some d \<and> d 0 = Some (es ! i))"
    using route_edges_nth [OF es] by blast
  have each: "\<exists>i nm pre. i + 1 < length p \<and> street_name (es ! i) = Inr nm
            \<and> instruction x = pre @ ''<strong>'' @ nm @ ''</strong>''
            \<and> distance x = rounded_length (es ! i)" if "x \<in> set ds" for x
  proof -
    from that ds consider
      "x = \<lparr>instruction = ''Head toward <strong>'' @ nm @ ''</strong>'',
            distance = rounded_length (es ! 0)\<rparr>"
      | j where "j \<in> set [1 ..< length p - 1]" "x \<in> set (appended_at G p es j)"
      by auto
    then show ?thesis
    proof cases
      case 1
      then have "instruction x = ''Head toward '' @ ''<strong>'' @ nm @ ''</strong>''"
        "distance x = rounded_length (es ! 0)" by simp_all
      moreover from assms(2) have "0 + 1 < length p" by simp
      ultimately show ?thesis using nm by blast
    next
      case 2
      from 2(1) have "j + 1 < length p" by auto
      with appended_at_member [OF 2(2)] show ?thesis by blast
    qed
  qed
  from es route_edges_length [OF es] keys each show ?thesis by blast
qed

text \<open>On the graph with the parallel edges: the pair weighs 50, the instruction says 100.\<close>

lemma parallel_edge_weight: "edge_weight parallel_graph 1 2 = 50"
  by (simp add: edge_weight_def parallel_graph_def main_rd_def shortcut_def)

lemma parallel_directions:
  "directions_of parallel_graph [1, 2] =
     Inr [\<lparr>instruction = ''Head toward <strong>Main Rd</strong>'', distance = 100\<rparr>]"
  by (simp add: parallel_graph_def main_rd_def directions_of_def street_name_def
      rounded_length_def py_round_def)

lemma parallel_request_nearest:
  "nearest_nodes parallel_library parallel_graph (lon (source parallel_request))
     (lat (source parallel_request)) = Inr 1"
  "nearest_nodes parallel_library parallel_graph (lon (target parallel_request))
     (lat (target parallel_request)) = Inr 2"
  by (simp_all add: parallel_library_def parallel_request_def)

text \<open>
  C8: the code at a route over a pair of nodes joined by parallel edges. Between nodes
  \<open>1\<close> and \<open>2\<close> the edge under key \<open>0\<close> is Main Rd, 100 long, and the edge under key \<open>1\<close> is
  Shortcut, 50 long. The path search weighs the pair by the shorter edge, so the response
  reports a total distance of 50; its only instruction, built from the edge under key \<open>0\<close>,
  names Main Rd and reports 100.
\<close>

theorem parallel_edges_leg_from_key_0:
  "get_edge_data parallel_graph 1 2 = Some [0 \<mapsto> main_rd, 1 \<mapsto> shortcut]
   \<and> length_attr main_rd = Some 100 \<and> length_attr shortcut = Some 50
   \<and> name shortcut = Some (Str ''Shortcut'')
   \<and> edge_weight parallel_graph 1 2 = 50
   \<and> get_path parallel_library parallel_graph parallel_request =
       Inr \<lparr>path = [(0, 0), (0, 1 / 1000)],
            total_distance = 50,
            directions =
              [\<lparr>instruction = ''Head toward <strong>Main Rd</strong>'', distance = 100\<rparr>]\<rparr>"
proof -
  have p: "shortest_path parallel_library parallel_graph 1 2 = Inr [1, 2]"
    by (simp add: parallel_library_def)
  have l: "shortest_path_length parallel_library parallel_graph 1 2 = Inr 50"
    by (simp add: parallel_library_def parallel_edge_weight)
  have c: "path_coords parallel_graph [1, 2] = Inr [(0, 0), (0, 1 / 1000)]"
    by (simp add: node_at_def parallel_graph_def)
  have r: "py_round2 50 = 50" by (simp add: py_round2_def py_round_def)
  have "get_path parallel_library parallel_graph parallel_request =
       Inr \<lparr>path = [(0, 0), (0, 1 / 1000)],
            total_distance = 50,
            directions =
              [\<lparr>instruction = ''Head toward <strong>Main Rd</strong>'', distance = 100\<rparr>]\<rparr>"
    unfolding get_path_def parallel_request_nearest
    by (simp add: p l c r parallel_directions del: path_coords.simps)
  moreover have "get_edge_data parallel_graph 1 2 = Some [0 \<mapsto> main_rd, 1 \<mapsto> shortcut]"
    by (simp add: parallel_graph_def)
  ultimately show ?thesis
    by (simp add: parallel_edge_weight main_rd_def shortcut_def)
qed

end
